theory Spec2Isabelle
  imports Complex_Main
begin

section \<open>The leaderboard pipeline of collect_scores.py\<close>

text \<open>
  The module fetches a leaderboard page, parses its results table into entries, filters
  them, looks each distinct model up on the model hub and writes a report. Every function
  of the module is embedded below under its own name.

  Conventions of the embedding.
  \<^item> A Python \<open>str\<close> is a \<open>string\<close>; a \<open>char\<close> stands for the code point of the same
    number, so the strings covered are those over U+0000..U+00FF. The sign \<open>\<plusminus>\<close> of the
    accuracy pattern is U+00B1, the character \<open>CHR 0xB1\<close>.
  \<^item> Python's \<open>int\<close> is \<open>int\<close>. A Python \<open>float\<close> obtained from a decimal token is
    represented by the exact decimal value of the token, a \<open>rat\<close>: the rounding to the
    nearest binary64 value (and the overflow of a huge token to infinity) is not part of
    the model.
  \<^item> A raised exception is a value \<open>Inl e\<close> of \<open>error + 'a\<close>.
  \<^item> The module-level constants read by a function (\<open>AGENT_NAME\<close>, \<open>CLOSED_MODEL_ORGS\<close>,
    \<open>MODEL_ORG_LOOKUP\<close>) are explicit arguments of its embedding; \<open>main\<close> passes the
    values the module defines.
  \<^item> Logging and console output change no data and are left out.
\<close>

subsection \<open>Data classes\<close>

record HFMatch =
  repo_id :: string
  repo_type :: string
  url :: string

record MatchResult =
  model_name :: string
  model_org :: string
  matches :: "HFMatch list"

subsection \<open>Characters and strings\<close>

datatype error = ValueError | RuntimeError | HTTPError | IndexError

text \<open>\<open>\d\<close> of the \<open>re\<close> module: on U+0000..U+00FF the decimal digits are \<open>0\<close> to \<open>9\<close>.\<close>

definition is_digit :: "char \<Rightarrow> bool" where
  "is_digit c = (c \<in> set ''0123456789'')"

text \<open>
  \<open>\s\<close> of the \<open>re\<close> module and the characters removed by \<open>str.strip()\<close>: on
  U+0000..U+00FF these are U+0009..U+000D, U+001C..U+0020, U+0085 and U+00A0.
\<close>

definition is_space :: "char \<Rightarrow> bool" where
  "is_space c = (let n = (of_char c :: nat) in
     (9 \<le> n \<and> n \<le> 13) \<or> (28 \<le> n \<and> n \<le> 32) \<or> n = 133 \<or> n = 160)"

text \<open>The character class \<open>[\d.]\<close>.\<close>

definition is_num_char :: "char \<Rightarrow> bool" where
  "is_num_char c = (is_digit c \<or> c = CHR ''.'')"

definition strip :: "string \<Rightarrow> string" where
  "strip s = rev (dropWhile is_space (rev (dropWhile is_space s)))"

text \<open>\<open>str.lower()\<close>: on U+0000..U+00FF the cased capitals are A..Z and U+00C0..U+00DE
  without U+00D7, each 32 below its small letter.\<close>

definition lower_char :: "char \<Rightarrow> char" where
  "lower_char c = (let n = (of_char c :: nat) in
     if (65 \<le> n \<and> n \<le> 90) \<or> (192 \<le> n \<and> n \<le> 222 \<and> n \<noteq> 215)
     then char_of (n + 32) else c)"

definition lower :: "string \<Rightarrow> string" where
  "lower s = map lower_char s"

fun starts_with :: "string \<Rightarrow> string \<Rightarrow> bool" where
  "starts_with [] s = True"
| "starts_with (p # ps) [] = False"
| "starts_with (p # ps) (c # cs) = (p = c \<and> starts_with ps cs)"

subsection \<open>\<open>int()\<close> and \<open>float()\<close> on a string\<close>

definition digit_val :: "char \<Rightarrow> nat" where
  "digit_val c = of_char c - 48"

definition digits_val :: "string \<Rightarrow> nat" where
  "digits_val ds = foldl (\<lambda>acc c. 10 * acc + digit_val c) 0 ds"

text \<open>The digits of a base-10 integer literal: a digit, then digits each preceded by at
  most one underscore.\<close>

fun int_body :: "string \<Rightarrow> bool" where
  "int_body [] = False"
| "int_body [c] = is_digit c"
| "int_body (c # d # r) =
     (is_digit c \<and> (if d = CHR ''_'' then int_body r else int_body (d # r)))"

text \<open>
  \<open>int(s)\<close>: surrounding whitespace is dropped, one sign is allowed, the rest must be the
  digits of a literal; anything else raises \<open>ValueError\<close>. (The limit CPython puts on the
  number of digits of such a string is not modelled.)
\<close>

definition py_int :: "string \<Rightarrow> error + int" where
  "py_int s =
     (let t = strip s;
          neg = (t \<noteq> [] \<and> hd t = CHR ''-'');
          body = (if t \<noteq> [] \<and> (hd t = CHR ''-'' \<or> hd t = CHR ''+'') then tl t else t)
      in if int_body body
         then Inr ((if neg then - 1 else 1) * int (digits_val (filter is_digit body)))
         else Inl ValueError)"

text \<open>
  \<open>float(s)\<close> for a string \<open>s\<close> over digits and dots, the only strings the module passes
  to it (lemma \<open>acc_match_tokens\<close> below): digits with at most one dot and at least one
  digit give the decimal value, anything else raises \<open>ValueError\<close>.
\<close>

definition py_float :: "string \<Rightarrow> error + rat" where
  "py_float s =
     (let ip = takeWhile is_digit s; r = dropWhile is_digit s
      in case r of
           [] \<Rightarrow> if ip = [] then Inl ValueError else Inr (of_nat (digits_val ip))
         | c # fp \<Rightarrow>
             if c = CHR ''.'' \<and> list_all is_digit fp \<and> (ip \<noteq> [] \<or> fp \<noteq> [])
             then Inr (of_nat (digits_val ip) + of_nat (digits_val fp) / 10 ^ length fp)
             else Inl ValueError)"

subsection \<open>The accuracy pattern\<close>

text \<open>
  \<open>re.match(r"([\d.]+)%\<plusminus>\s*([\d.]+|N/A)", accuracy_str)\<close>, a match anchored at the start of
  the string only. The first group is greedy and the character after it must be \<open>%\<close>,
  which is outside the class, so the group is the longest run of class characters;
  likewise \<open>\s*\<close> takes all the whitespace, since what follows it is no whitespace. The
  second group tries the run of class characters first and the literal \<open>N/A\<close> second.
  The result holds the two groups and the text left after the match.
\<close>

definition acc_match_end :: "string \<Rightarrow> (string \<times> string \<times> string) option" where
  "acc_match_end s =
     (let g1 = takeWhile is_num_char s; r1 = dropWhile is_num_char s
      in if g1 = [] then None
         else if starts_with [CHR ''%'', CHR 0xB1] r1
         then (let r3 = dropWhile is_space (drop 2 r1);
                   g2 = takeWhile is_num_char r3
               in if g2 \<noteq> [] then Some (g1, g2, dropWhile is_num_char r3)
                  else if starts_with ''N/A'' r3 then Some (g1, ''N/A'', drop 3 r3)
                  else None)
         else None)"

definition acc_match :: "string \<Rightarrow> (string \<times> string) option" where
  "acc_match s = map_option (\<lambda>(g1, g2, rest). (g1, g2)) (acc_match_end s)"

text \<open>The pattern as the specification words it: the whole text of the cell matches.\<close>

definition spec_accuracy_cell :: "string \<Rightarrow> bool" where
  "spec_accuracy_cell s = (case acc_match_end s of Some (g1, g2, rest) \<Rightarrow> rest = [] | None \<Rightarrow> False)"

subsection \<open>Rows to entries\<close>

record entry =
  rank :: int
  agent :: string
  model :: string
  date :: string
  agent_org :: string
  model_org :: string
  accuracy :: rat
  error_margin :: "rat option"

text \<open>
  The body of the loop over the rows in \<open>fetch_leaderboard\<close>, from the cleaned cells on:
  \<open>Inr None\<close> is a \<open>continue\<close> (the row is skipped), \<open>Inr (Some e)\<close> appends \<open>e\<close> to the
  results, \<open>Inl e\<close> is an exception leaving the loop. Only the unpacking of the cells is
  inside the \<open>try\<close>; the two calls of \<open>float\<close> and the call of \<open>int\<close> are evaluated in
  this order outside it.
\<close>

definition parse_row :: "string list \<Rightarrow> error + entry option" where
  "parse_row cells =
     (if cells = [] \<or> take 1 (drop 1 cells) = [''Rank''] \<or> take 1 (drop 1 cells) = []
      then Inr None
      else case cells of
        [_, rank_str, agent', model', date', agent_org', model_org', accuracy_str] \<Rightarrow>
          (case acc_match accuracy_str of
             None \<Rightarrow> Inr None
           | Some (g1, g2) \<Rightarrow>
               (case py_float g1 of
                  Inl e \<Rightarrow> Inl e
                | Inr accuracy' \<Rightarrow>
                    (case (if g2 \<noteq> ''N/A'' then map_sum id Some (py_float g2) else Inr None) of
                       Inl e \<Rightarrow> Inl e
                     | Inr error_margin' \<Rightarrow>
                         (case py_int rank_str of
                            Inl e \<Rightarrow> Inl e
                          | Inr rank' \<Rightarrow>
                              Inr (Some \<lparr>rank = rank', agent = agent', model = model',
                                date = date', agent_org = agent_org', model_org = model_org',
                                accuracy = accuracy', error_margin = error_margin'\<rparr>)))))
      | _ \<Rightarrow> Inr None)"

subsection \<open>Extracting the table\<close>

text \<open>
  \<open>(.*?)NEEDLE\<close> with \<open>re.DOTALL\<close>: the lazy group ends at the first occurrence of the
  needle. The result is the group and the text after the needle.
\<close>

fun find_sub :: "string \<Rightarrow> string \<Rightarrow> (string \<times> string) option" where
  "find_sub needle [] = (if needle = [] then Some ([], []) else None)"
| "find_sub needle (c # cs) =
     (if starts_with needle (c # cs) then Some ([], drop (length needle) (c # cs))
      else map_option (\<lambda>(b, a). (c # b, a)) (find_sub needle cs))"

text \<open>
  \<open>re.search(r"<table.*?>(.*?)</table>", text, re.DOTALL)\<close>. \<open>table_body\<close> is the part
  \<open>.*?>(.*?)</table>\<close> at the text after \<open><table\<close>: the lazy \<open>.*?\<close> is tried on each
  \<open>>\<close> from the left. \<open>table_search\<close> tries the start positions from the left and
  returns group 1.
\<close>

fun table_body :: "string \<Rightarrow> string option" where
  "table_body [] = None"
| "table_body (c # cs) =
     (if c = CHR ''>''
      then (case find_sub ''</table>'' cs of Some (g, _) \<Rightarrow> Some g | None \<Rightarrow> table_body cs)
      else table_body cs)"

fun table_search :: "string \<Rightarrow> string option" where
  "table_search [] = None"
| "table_search (c # cs) =
     (case (if starts_with ''<table'' (c # cs) then table_body (drop 6 (c # cs)) else None) of
        Some g \<Rightarrow> Some g
      | None \<Rightarrow> table_search cs)"

text \<open>
  \<open>re.findall(r"<tr[^>]*>(.*?)</tr>", table_html, re.DOTALL)\<close>. \<open>tr_match\<close> is the
  pattern at the start of a string: the greedy \<open>[^>]*\<close> runs to the first \<open>>\<close>, which must
  exist. \<open>findall_tr\<close> collects group 1 of the matches from the left, each search
  starting where the previous match ended.
\<close>

definition tr_match :: "string \<Rightarrow> (string \<times> string) option" where
  "tr_match s =
     (if starts_with ''<tr'' s
      then (case dropWhile (\<lambda>c. c \<noteq> CHR ''>'') (drop 3 s) of
              [] \<Rightarrow> None
            | _ # r \<Rightarrow> find_sub ''</tr>'' r)
      else None)"

function findall_tr :: "string \<Rightarrow> string list" where
  "findall_tr [] = []"
| "findall_tr (c # cs) =
     (case tr_match (c # cs) of
        Some (g, rest) \<Rightarrow> g # findall_tr rest
      | None \<Rightarrow> findall_tr cs)"
  by pat_completeness auto
termination
proof (relation "measure length")
  fix c :: char and cs :: string and x :: "string \<times> string" and g rest :: string
  assume m: "tr_match (c # cs) = Some x" and x: "(g, rest) = x"
  have sub: "length a \<le> length s" if "find_sub ''</tr>'' s = Some (b, a)" for s b a
    using that by (induction s arbitrary: b) (auto split: if_splits)
  from m x obtain y r where d: "dropWhile (\<lambda>c. c \<noteq> CHR ''>'') (drop 3 (c # cs)) = y # r"
    and f: "find_sub ''</tr>'' r = Some (g, rest)"
    by (auto simp: tr_match_def split: if_splits list.splits)
  have "length (dropWhile (\<lambda>c. c \<noteq> CHR ''>'') (drop 3 (c # cs))) \<le> length (drop 3 (c # cs))"
    by (rule length_dropWhile_le)
  with d have "length r < length (c # cs)" by simp
  with sub [OF f] show "(rest, c # cs) \<in> measure length" by simp
qed simp_all

text \<open>
  \<open>re.findall(r"<t[dh][^>]*>(.*?)</t[dh]>", row, re.DOTALL)\<close>, in the same way; the lazy
  group ends at the first \<open></td>\<close> or \<open></th>\<close>.
\<close>

fun find_cell_close :: "string \<Rightarrow> (string \<times> string) option" where
  "find_cell_close [] = None"
| "find_cell_close (c # cs) =
     (if starts_with ''</td>'' (c # cs) \<or> starts_with ''</th>'' (c # cs)
      then Some ([], drop 5 (c # cs))
      else map_option (\<lambda>(b, a). (c # b, a)) (find_cell_close cs))"

definition cell_match :: "string \<Rightarrow> (string \<times> string) option" where
  "cell_match s =
     (if starts_with ''<td'' s \<or> starts_with ''<th'' s
      then (case dropWhile (\<lambda>c. c \<noteq> CHR ''>'') (drop 3 s) of
              [] \<Rightarrow> None
            | _ # r \<Rightarrow> find_cell_close r)
      else None)"

function findall_cell :: "string \<Rightarrow> string list" where
  "findall_cell [] = []"
| "findall_cell (c # cs) =
     (case cell_match (c # cs) of
        Some (g, rest) \<Rightarrow> g # findall_cell rest
      | None \<Rightarrow> findall_cell cs)"
  by pat_completeness auto
termination
proof (relation "measure length")
  fix c :: char and cs :: string and x :: "string \<times> string" and g rest :: string
  assume m: "cell_match (c # cs) = Some x" and x: "(g, rest) = x"
  have sub: "length a \<le> length s" if "find_cell_close s = Some (b, a)" for s b a
    using that by (induction s arbitrary: b) (auto split: if_splits)
  from m x obtain y r where d: "dropWhile (\<lambda>c. c \<noteq> CHR ''>'') (drop 3 (c # cs)) = y # r"
    and f: "find_cell_close r = Some (g, rest)"
    by (auto simp: cell_match_def split: if_splits list.splits)
  have "length (dropWhile (\<lambda>c. c \<noteq> CHR ''>'') (drop 3 (c # cs))) \<le> length (drop 3 (c # cs))"
    by (rule length_dropWhile_le)
  with d have "length r < length (c # cs)" by simp
  with sub [OF f] show "(rest, c # cs) \<in> measure length" by simp
qed simp_all

text \<open>
  \<open>re.sub(r"<[^>]+>", "", c)\<close>: at a \<open><\<close> followed by a non-empty run of characters other
  than \<open>>\<close> and then a \<open>>\<close>, the whole tag is removed; any other character is kept.
\<close>

function strip_tags :: "string \<Rightarrow> string" where
  "strip_tags [] = []"
| "strip_tags (c # cs) =
     (if c = CHR ''<'' \<and> takeWhile (\<lambda>c. c \<noteq> CHR ''>'') cs \<noteq> []
         \<and> dropWhile (\<lambda>c. c \<noteq> CHR ''>'') cs \<noteq> []
      then strip_tags (tl (dropWhile (\<lambda>c. c \<noteq> CHR ''>'') cs))
      else c # strip_tags cs)"
  by pat_completeness auto
termination
proof (relation "measure length")
  fix c :: char and cs :: string
  have "length (dropWhile (\<lambda>c. c \<noteq> CHR ''>'') cs) \<le> length cs"
    by (rule length_dropWhile_le)
  then show "(tl (dropWhile (\<lambda>c. c \<noteq> CHR ''>'') cs), c # cs) \<in> measure length"
    by simp
qed auto

text \<open>The cells of a row: the tags inside a cell are removed and the text is stripped.\<close>

definition row_cells :: "string \<Rightarrow> string list" where
  "row_cells row = map (\<lambda>c. strip (strip_tags c)) (findall_cell row)"

text \<open>The loop over the rows: the results are accumulated in order, an exception ends it.\<close>

fun parse_rows :: "string list \<Rightarrow> entry list \<Rightarrow> error + entry list" where
  "parse_rows [] results = Inr results"
| "parse_rows (row # rows) results =
     (case parse_row (row_cells row) of
        Inl e \<Rightarrow> Inl e
      | Inr None \<Rightarrow> parse_rows rows results
      | Inr (Some r) \<Rightarrow> parse_rows rows (results @ [r]))"

text \<open>
  The outcome of \<open>httpx.get(url, follow_redirects=True, timeout=30)\<close>: the call raises, or
  it returns the final response with its status code and its text.
\<close>

datatype http_response = TransportFailure | Response nat string

definition SOURCE_URL :: string where
  "SOURCE_URL = ''https://www.tbench.ai/leaderboard/terminal-bench/2.0''"

text \<open>\<open>resp.raise_for_status()\<close> raises unless the status is a 2xx.\<close>

definition is_success :: "nat \<Rightarrow> bool" where
  "is_success status = (200 \<le> status \<and> status \<le> 299)"

definition fetch_leaderboard :: "(string \<Rightarrow> http_response) \<Rightarrow> string \<Rightarrow> error + entry list" where
  "fetch_leaderboard get u =
     (case get u of
        TransportFailure \<Rightarrow> Inl HTTPError
      | Response status text \<Rightarrow>
          if \<not> is_success status then Inl HTTPError
          else (case table_search text of
                  None \<Rightarrow> Inl RuntimeError
                | Some table_html \<Rightarrow> parse_rows (findall_tr table_html) []))"

subsection \<open>Configuration\<close>

definition CLOSED_MODEL_ORGS :: "string set" where
  "CLOSED_MODEL_ORGS = {''OpenAI'', ''Google'', ''xAI'', ''Anthropic''}"

definition AGENT_NAME :: string where
  "AGENT_NAME = ''Terminus 2''"

definition MODEL_ORG_LOOKUP :: "string \<rightharpoonup> string" where
  "MODEL_ORG_LOOKUP = map_of
     [(''Kimi'', ''moonshotai''), (''Moonshot AI'', ''moonshotai''), (''Z-AI'', ''zai-org''),
      (''Z.ai'', ''zai-org''), (''MiniMax'', ''minimaxai''), (''Alibaba'', ''Qwen'')]"

definition OUTPUT_PATH :: string where
  "OUTPUT_PATH = ''matched-repos.json''"

subsection \<open>Filtering\<close>

definition filter_entries ::
  "string \<Rightarrow> string set \<Rightarrow> (string \<rightharpoonup> string) \<Rightarrow> entry list \<Rightarrow> entry list" where
  "filter_entries agent_name closed_orgs org_lookup results =
     [r \<leftarrow> results. agent r = agent_name \<and> model_org r \<notin> closed_orgs
                    \<and> model_org r \<in> dom org_lookup]"

subsection \<open>Distinct models\<close>

text \<open>The loop of \<open>unique_models\<close> with its two variables, the set \<open>seen\<close> and the list
  \<open>models\<close>.\<close>

fun unique_models_loop ::
  "entry list \<Rightarrow> (string \<times> string) set \<Rightarrow> (string \<times> string) list \<Rightarrow> (string \<times> string) list" where
  "unique_models_loop [] seen models = models"
| "unique_models_loop (entry # entries) seen models =
     (let key = (model entry, model_org entry)
      in if key \<notin> seen then unique_models_loop entries (insert key seen) (models @ [key])
         else unique_models_loop entries seen models)"

definition unique_models :: "entry list \<Rightarrow> (string \<times> string) list" where
  "unique_models entries = unique_models_loop entries {} []"

subsection \<open>Searching the hub\<close>

text \<open>
  What iterating over \<open>api.list_models(...)\<close> does: the iteration ends, or an exception
  (of class \<open>Exception\<close>) is raised, by the call or while the next page of results is
  fetched, or the next model is yielded, of which the module reads the \<open>id\<close>.
\<close>

datatype 'a generator = Stop | Raises | Yield 'a "'a generator"

type_synonym hf_api = "string \<Rightarrow> int \<Rightarrow> string \<Rightarrow> string generator"

text \<open>The generator that yields the items of a list in order and then goes on as \<open>g\<close>; with
  \<open>g = Stop\<close> it is a search that returns the list.\<close>

fun yield_all :: "'a list \<Rightarrow> 'a generator \<Rightarrow> 'a generator" where
  "yield_all [] g = g"
| "yield_all (x # xs) g = Yield x (yield_all xs g)"

text \<open>
  The \<open>for\<close> loop inside the \<open>try\<close>. The result tells whether an exception reached the
  \<open>except\<close> clause, and holds \<open>result.matches\<close> as the loop left it.
\<close>

fun scan_models :: "string \<Rightarrow> string generator \<Rightarrow> HFMatch list \<Rightarrow> bool \<times> HFMatch list" where
  "scan_models hf_org_lower Stop ms = (False, ms)"
| "scan_models hf_org_lower Raises ms = (True, ms)"
| "scan_models hf_org_lower (Yield m_id g) ms =
     (let repo_owner = lower (takeWhile (\<lambda>c. c \<noteq> CHR ''/'') m_id)
      in if repo_owner = hf_org_lower
         then (False, ms @ [\<lparr>repo_id = m_id, repo_type = ''model'',
                               url = ''https://huggingface.co/'' @ m_id\<rparr>])
         else scan_models hf_org_lower g ms)"

definition search_hf_hub ::
  "(string \<rightharpoonup> string) \<Rightarrow> hf_api \<Rightarrow> string \<Rightarrow> string \<Rightarrow> int \<Rightarrow> MatchResult option" where
  "search_hf_hub org_lookup api name org limit =
     (case org_lookup org of
        None \<Rightarrow> None
      | Some hf_org \<Rightarrow>
          (let hf_org_lower = lower hf_org;
               result = \<lparr>model_name = name, MatchResult.model_org = org, matches = []\<rparr>;
               (raised, ms) = scan_models hf_org_lower (api name limit ''likes'') (matches result);
               result = result\<lparr>matches := ms\<rparr>
           in if matches result \<noteq> [] then Some result else None))"

subsection \<open>Building the report\<close>

record report_entry = entry +
  hf_repo_id :: string
  hf_url :: string

record report =
  source :: string
  entries :: "report_entry list"

text \<open>The loop of \<open>build_output\<close>; \<open>mr.matches[0]\<close> raises \<open>IndexError\<close> on an empty list.\<close>

fun build_entries ::
  "entry list \<Rightarrow> (string \<rightharpoonup> MatchResult) \<Rightarrow> report_entry list \<Rightarrow> error + report_entry list" where
  "build_entries [] match_results enriched_entries = Inr enriched_entries"
| "build_entries (entry # es) match_results enriched_entries =
     (case match_results (model entry) of
        None \<Rightarrow> build_entries es match_results enriched_entries
      | Some mr \<Rightarrow>
          (case matches mr of
             [] \<Rightarrow> Inl IndexError
           | repo # _ \<Rightarrow>
               build_entries es match_results
                 (enriched_entries @
                   [\<lparr>rank = rank entry, agent = agent entry, model = model entry,
                     date = date entry, agent_org = agent_org entry,
                     model_org = model_org entry, accuracy = accuracy entry,
                     error_margin = error_margin entry,
                     hf_repo_id = repo_id repo, hf_url = url repo\<rparr>])))"

definition build_output :: "entry list \<Rightarrow> (string \<rightharpoonup> MatchResult) \<Rightarrow> error + report" where
  "build_output es match_results =
     (case build_entries es match_results [] of
        Inl e \<Rightarrow> Inl e
      | Inr enriched_entries \<Rightarrow> Inr \<lparr>source = SOURCE_URL, entries = enriched_entries\<rparr>)"

subsection \<open>The main program\<close>

text \<open>
  The loop of \<open>main\<close> over the distinct models. \<open>hub i\<close> is the hub as it answers during
  the \<open>i\<close>-th pass of the loop.
\<close>

fun match_loop ::
  "(nat \<Rightarrow> hf_api) \<Rightarrow> nat \<Rightarrow> (string \<times> string) list \<Rightarrow> (string \<rightharpoonup> MatchResult)
     \<Rightarrow> (string \<rightharpoonup> MatchResult)" where
  "match_loop hub i [] match_results = match_results"
| "match_loop hub i ((name, org) # models) match_results =
     (case search_hf_hub MODEL_ORG_LOOKUP (hub i) name org 5 of
        None \<Rightarrow> match_loop hub (Suc i) models match_results
      | Some result \<Rightarrow> match_loop hub (Suc i) models (match_results(name \<mapsto> result)))"

text \<open>
  The files are a map from paths to what was last written there; the text that
  \<open>json.dump\<close> writes is represented by the report it serialises. \<open>main\<close> returns how it
  ended and the files it leaves.
\<close>

type_synonym files = "string \<rightharpoonup> report"

definition main ::
  "(string \<Rightarrow> http_response) \<Rightarrow> (nat \<Rightarrow> hf_api) \<Rightarrow> files \<Rightarrow> (error + unit) \<times> files" where
  "main get hub fs =
     (case fetch_leaderboard get SOURCE_URL of
        Inl e \<Rightarrow> (Inl e, fs)
      | Inr all_results \<Rightarrow>
          (let es = filter_entries AGENT_NAME CLOSED_MODEL_ORGS MODEL_ORG_LOOKUP all_results;
               models = unique_models es;
               match_results = match_loop hub 0 models Map.empty
           in case build_output es match_results of
                Inl e \<Rightarrow> (Inl e, fs)
              | Inr output \<Rightarrow> (Inr (), fs(OUTPUT_PATH \<mapsto> output))))"

subsection \<open>Example inputs\<close>

text \<open>An accuracy cell as the leaderboard prints it, a row of eight cells, a page holding a
  header row and one data row, and an entry.\<close>

definition acc_text :: "string \<Rightarrow> string \<Rightarrow> string" where
  "acc_text a m = a @ [CHR ''%'', CHR 0xB1, CHR '' ''] @ m"

definition example_cells :: "string \<Rightarrow> string \<Rightarrow> string list" where
  "example_cells rank_str accuracy_str =
     ['''', rank_str, ''Terminus 2'', ''Kimi K2'', ''2025-11-01'', ''Terminal Bench'', ''Kimi'',
      accuracy_str]"

definition example_page :: "string list \<Rightarrow> string" where
  "example_page cells =
     ''<html><table class=\"lb\"><tr><th></th><th>Rank</th></tr><tr>''
       @ concat (map (\<lambda>c. ''<td>'' @ c @ ''</td>'') cells) @ ''</tr></table></html>''"

definition kimi_entry :: entry where
  "kimi_entry = \<lparr>rank = 3, agent = ''Terminus 2'', model = ''M'', date = ''2025-11-01'',
     agent_org = ''Terminal Bench'', model_org = ''Kimi'', accuracy = 50, error_margin = None\<rparr>"

definition qwen_results :: "string \<rightharpoonup> MatchResult" where
  "qwen_results = Map.empty(''M'' \<mapsto>
     \<lparr>model_name = ''M'', MatchResult.model_org = ''Alibaba'',
      matches = [\<lparr>repo_id = ''Qwen/M'', repo_type = ''model'',
                  url = ''https://huggingface.co/Qwen/M''\<rparr>]\<rparr>)"

definition qwen_entry :: "string \<Rightarrow> report_entry" where
  "qwen_entry org = \<lparr>rank = 3, agent = ''Terminus 2'', model = ''M'', date = ''2025-11-01'',
     agent_org = ''Terminal Bench'', model_org = org, accuracy = 50, error_margin = None,
     hf_repo_id = ''Qwen/M'', hf_url = ''https://huggingface.co/Qwen/M''\<rparr>"

definition synthetic_entry :: "string \<Rightarrow> string \<Rightarrow> entry" where
  "synthetic_entry a org = kimi_entry\<lparr>agent := a, model_org := org\<rparr>"

section \<open>Properties\<close>

subsection \<open>Auxiliary facts\<close>

lemma py_float_nonneg: "py_float s = Inr a \<Longrightarrow> 0 \<le> a"
  by (auto simp: py_float_def Let_def split: list.splits if_splits)

lemma acc_match_tokens:
  assumes "acc_match s = Some (g1, g2)"
  shows "g1 \<noteq> [] \<and> list_all is_num_char g1 \<and> (g2 = ''N/A'' \<or> (g2 \<noteq> [] \<and> list_all is_num_char g2))"
  using assms
  by (auto simp: acc_match_def acc_match_end_def Let_def list_all_iff split: if_splits dest: set_takeWhileD)

lemma length_eight:
  "length cells = 8 \<Longrightarrow> \<exists>c0 c1 c2 c3 c4 c5 c6 c7. cells = [c0, c1, c2, c3, c4, c5, c6, c7]"
  by (auto simp: eval_nat_numeral length_Suc_conv)

lemma py_int_Rank: "py_int ''Rank'' = Inl ValueError"
  by code_simp

lemma parse_row_eight:
  "parse_row [c0, c1, c2, c3, c4, c5, c6, c7] =
     (if c1 = ''Rank'' then Inr None
      else case acc_match c7 of
             None \<Rightarrow> Inr None
           | Some (g1, g2) \<Rightarrow>
               (case py_float g1 of
                  Inl e \<Rightarrow> Inl e
                | Inr a \<Rightarrow>
                    (case (if g2 \<noteq> ''N/A'' then map_sum id Some (py_float g2) else Inr None) of
                       Inl e \<Rightarrow> Inl e
                     | Inr m \<Rightarrow>
                         (case py_int c1 of
                            Inl e \<Rightarrow> Inl e
                          | Inr r \<Rightarrow>
                              Inr (Some \<lparr>rank = r, agent = c2, model = c3,
                                date = c4, agent_org = c5, model_org = c6,
                                accuracy = a, error_margin = m\<rparr>)))))"
  by (simp add: parse_row_def)

lemma parse_rows_raise:
  "parse_row (row_cells row) = Inl e \<Longrightarrow> parse_rows (row # rows) results = Inl e"
  by simp

lemma parse_row_SomeD:
  assumes "parse_row cells = Inr (Some e)"
  shows "\<exists>g1 g2. length cells = 8 \<and> acc_match (cells ! 7) = Some (g1, g2) \<and>
           py_float g1 = Inr (accuracy e) \<and> py_int (cells ! 1) = Inr (rank e)"
proof -
  have len: "length cells = 8"
    using assms
    by (auto simp: parse_row_def split: if_splits list.splits)
  then obtain c0 c1 c2 c3 c4 c5 c6 c7 where
    cells: "cells = [c0, c1, c2, c3, c4, c5, c6, c7]"
    using length_eight by blast
  show ?thesis
    using assms unfolding cells parse_row_eight
    by (auto split: option.splits sum.splits if_splits)
qed

lemma build_entries_result:
  "build_entries es mrs acc = Inr out \<Longrightarrow>
     \<exists>new. out = acc @ new \<and>
       map entry.truncate new = [e \<leftarrow> es. mrs (model e) \<noteq> None] \<and>
       (\<forall>r \<in> set new. \<exists>mr repo rest. mrs (model r) = Some mr \<and> matches mr = repo # rest \<and>
          hf_repo_id r = repo_id repo \<and> hf_url r = url repo)"
proof (induction es arbitrary: acc)
  case Nil
  then show ?case by simp
next
  case (Cons e es)
  show ?case
  proof (cases "mrs (model e)")
    case None
    with Cons.prems have "build_entries es mrs acc = Inr out" by simp
    from Cons.IH [OF this] None show ?thesis by simp
  next
    case (Some mr)
    with Cons.prems obtain repo rest where m: "matches mr = repo # rest"
      by (cases "matches mr") auto
    let ?r = "\<lparr>rank = rank e, agent = agent e, model = model e, date = date e,
      agent_org = agent_org e, model_org = model_org e, accuracy = accuracy e,
      error_margin = error_margin e, hf_repo_id = repo_id repo, hf_url = url repo\<rparr>"
    from Cons.prems Some m have "build_entries es mrs (acc @ [?r]) = Inr out" by simp
    from Cons.IH [OF this] obtain new where
      new: "out = (acc @ [?r]) @ new"
        "map entry.truncate new = [e \<leftarrow> es. mrs (model e) \<noteq> None]"
        "\<forall>r \<in> set new. \<exists>mr repo rest. mrs (model r) = Some mr \<and> matches mr = repo # rest \<and>
          hf_repo_id r = repo_id repo \<and> hf_url r = url repo"
      by blast
    have t: "entry.truncate ?r = e" by (simp add: entry.truncate_def)
    show ?thesis
      apply (rule exI [of _ "?r # new"])
      using new Some m t by auto
  qed
qed

lemma build_entries_total:
  "\<forall>e \<in> set es. \<forall>mr. mrs (model e) = Some mr \<longrightarrow> matches mr \<noteq> [] \<Longrightarrow>
     \<exists>out. build_entries es mrs acc = Inr out"
proof (induction es arbitrary: acc)
  case Nil
  then show ?case by simp
next
  case (Cons e es)
  then show ?case
    by (cases "mrs (model e)") (auto split: list.splits)
qed

lemma py_float_error: "py_float s = Inl e \<Longrightarrow> e = ValueError"
  by (auto simp: py_float_def Let_def split: list.splits if_splits)

lemma py_int_error: "py_int s = Inl e \<Longrightarrow> e = ValueError"
  by (auto simp: py_int_def Let_def split: if_splits)

lemma parse_row_error:
  assumes "parse_row cells = Inl e"
  shows "e = ValueError"
proof -
  have len: "length cells = 8"
    using assms
    by (auto simp: parse_row_def split: if_splits list.splits)
  then obtain c0 c1 c2 c3 c4 c5 c6 c7 where
    cells: "cells = [c0, c1, c2, c3, c4, c5, c6, c7]"
    using length_eight by blast
  show ?thesis
    using assms unfolding cells parse_row_eight
    by (auto split: option.splits sum.splits if_splits simp: map_sum_def
        dest: py_float_error py_int_error)
qed

lemma parse_row_rank_failure:
  assumes "length cells = 8" and "cells ! 1 \<noteq> ''Rank''"
    and "acc_match (cells ! 7) = Some (g1, g2)" and "py_float g1 = Inr a"
    and "g2 = ''N/A'' \<or> py_float g2 = Inr m" and "py_int (cells ! 1) = Inl e"
  shows "parse_row cells = Inl ValueError"
proof -
  from assms(1) obtain c0 c1 c2 c3 c4 c5 c6 c7 where
    cells: "cells = [c0, c1, c2, c3, c4, c5, c6, c7]"
    using length_eight by blast
  from assms(6) have "e = ValueError" by (rule py_int_error)
  with assms show ?thesis
    unfolding cells parse_row_eight by (auto simp: map_sum_def)
qed

lemma parse_rows_error: "parse_rows rows results = Inl e \<Longrightarrow> e = ValueError"
proof (induction rows arbitrary: results)
  case Nil
  then show ?case by simp
next
  case (Cons row rows)
  then show ?case
    by (auto split: sum.splits option.splits dest: parse_row_error)
qed

lemma fetch_leaderboard_error:
  "fetch_leaderboard get u = Inl e \<Longrightarrow> e = HTTPError \<or> e = RuntimeError \<or> e = ValueError"
  by (auto simp: fetch_leaderboard_def split: http_response.splits if_splits option.splits
      dest: parse_rows_error)

lemma unique_models_loop_indices:
  "unique_models_loop es seen models =
     models @ map ((!) (map (\<lambda>e. (model e, model_org e)) es))
       [j \<leftarrow> [0..<length es].
          map (\<lambda>e. (model e, model_org e)) es ! j
            \<notin> seen \<union> set (take j (map (\<lambda>e. (model e, model_org e)) es))]"
proof (induction es arbitrary: seen models)
  case Nil
  show ?case by simp
next
  case (Cons e es)
  let ?k = "(model e, model_org e)"
  let ?ks = "map (\<lambda>e. (model e, model_org e)) es"
  let ?P = "\<lambda>seen ks j. ks ! j \<notin> seen \<union> set (take j ks)"
  have upt: "[0..<length (e # es)] = 0 # map Suc [0..<length es]"
    by (simp add: upt_conv_Cons map_Suc_upt del: upt_Suc)
  have P0: "?P seen (?k # ?ks) 0 = (?k \<notin> seen)"
    by simp
  have PS: "\<And>j. ?P seen (?k # ?ks) (Suc j) = ?P (insert ?k seen) ?ks j"
    by auto
  have flt: "filter (?P seen (?k # ?ks)) [0..<length (e # es)] =
      (if ?k \<notin> seen then [0] else []) @ map Suc (filter (?P (insert ?k seen) ?ks) [0..<length es])"
    unfolding upt filter.simps filter_map comp_def P0 PS by simp
  have rhs: "map ((!) (?k # ?ks)) (filter (?P seen (?k # ?ks)) [0..<length (e # es)]) =
      (if ?k \<notin> seen then [?k] else []) @ map ((!) ?ks) (filter (?P (insert ?k seen) ?ks) [0..<length es])"
    unfolding flt by (simp add: comp_def)
  show ?case
  proof (cases "?k \<in> seen")
    case True
    then have ins: "insert ?k seen = seen" by (rule insert_absorb)
    from True have "unique_models_loop (e # es) seen models = unique_models_loop es seen models"
      by (simp add: Let_def)
    also have "\<dots> = models @ map ((!) ?ks) (filter (?P seen ?ks) [0..<length es])"
      by (rule Cons.IH)
    also have "\<dots> = models @ map ((!) (?k # ?ks)) (filter (?P seen (?k # ?ks)) [0..<length (e # es)])"
      unfolding rhs ins using True by simp
    finally show ?thesis by simp
  next
    case False
    then have "unique_models_loop (e # es) seen models =
        unique_models_loop es (insert ?k seen) (models @ [?k])"
      by (simp add: Let_def)
    also have "\<dots> = (models @ [?k]) @ map ((!) ?ks) (filter (?P (insert ?k seen) ?ks) [0..<length es])"
      by (rule Cons.IH)
    also have "\<dots> = models @ map ((!) (?k # ?ks)) (filter (?P seen (?k # ?ks)) [0..<length (e # es)])"
      unfolding rhs using False by simp
    finally show ?thesis by simp
  qed
qed

lemma unique_models_loop_set:
  "set (unique_models_loop es seen models) =
     set models \<union> (set (map (\<lambda>e. (model e, model_org e)) es) - seen)"
  by (induction es arbitrary: seen models) (auto simp: Let_def)

lemma unique_models_loop_distinct:
  "distinct models \<Longrightarrow> set models \<subseteq> seen \<Longrightarrow> distinct (unique_models_loop es seen models)"
proof (induction es arbitrary: seen models)
  case Nil
  then show ?case by simp
next
  case (Cons e es)
  let ?k = "(model e, model_org e)"
  show ?case
  proof (cases "?k \<in> seen")
    case True
    with Cons.IH [OF Cons.prems] show ?thesis by (simp add: Let_def)
  next
    case False
    with Cons.prems have "distinct (models @ [?k])" and "set (models @ [?k]) \<subseteq> insert ?k seen"
      by auto
    from Cons.IH [OF this] False show ?thesis by (simp add: Let_def)
  qed
qed

lemma distinct_count_list:
  "distinct xs \<Longrightarrow> count_list xs x = (if x \<in> set xs then 1 else 0)"
  by (induction xs) auto

lemma scan_models_yield_all:
  "scan_models h (yield_all cands g) ms =
     (case find (\<lambda>m. lower (takeWhile (\<lambda>c. c \<noteq> CHR ''/'') m) = h) cands of
        Some m \<Rightarrow> (False, ms @ [\<lparr>repo_id = m, repo_type = ''model'',
                                    url = ''https://huggingface.co/'' @ m\<rparr>])
      | None \<Rightarrow> scan_models h g ms)"
  by (induction cands) (auto simp: Let_def)

lemma scan_models_raised: "fst (scan_models h g ms) \<Longrightarrow> snd (scan_models h g ms) = ms"
  by (induction g) (auto simp: Let_def)

lemma scan_models_matches:
  "snd (scan_models h g ms) = ms \<or> (\<exists>m. snd (scan_models h g ms) = ms @ [m])"
  by (induction g) (auto simp: Let_def)

lemma search_hf_hub_Some:
  "org_lookup org = Some hf_org \<Longrightarrow>
   search_hf_hub org_lookup api name org limit =
     (let ms = snd (scan_models (lower hf_org) (api name limit ''likes'') [])
      in if ms \<noteq> [] then Some \<lparr>model_name = name, MatchResult.model_org = org, matches = ms\<rparr>
         else None)"
  by (simp add: search_hf_hub_def Let_def split: prod.splits)

lemma search_hf_hub_single:
  assumes "search_hf_hub org_lookup api name org limit = Some r"
  shows "\<exists>repo. matches r = [repo]"
proof -
  from assms obtain hf_org where l: "org_lookup org = Some hf_org"
    by (auto simp: search_hf_hub_def split: option.splits)
  let ?ms = "snd (scan_models (lower hf_org) (api name limit ''likes'') [])"
  from assms have r: "matches r = ?ms" and ne: "?ms \<noteq> []"
    unfolding search_hf_hub_Some [of org_lookup org hf_org, OF l] by (auto simp: Let_def split: if_splits)
  from scan_models_matches [of "lower hf_org" "api name limit ''likes''" "[]"] ne
  obtain m where "?ms = [m]" by auto
  with r show ?thesis by simp
qed

lemma match_loop_single:
  "\<forall>name mr. mrs name = Some mr \<longrightarrow> (\<exists>repo. matches mr = [repo]) \<Longrightarrow>
   match_loop hub i models mrs name = Some mr \<Longrightarrow> \<exists>repo. matches mr = [repo]"
proof (induction models arbitrary: i mrs)
  case Nil
  then show ?case by simp
next
  case (Cons p models)
  obtain n org where p: "p = (n, org)" by (cases p)
  show ?case
  proof (cases "search_hf_hub MODEL_ORG_LOOKUP (hub i) n org 5")
    case None
    with Cons.prems(2) have "match_loop hub (Suc i) models mrs name = Some mr"
      by (simp add: p)
    from Cons.IH [OF Cons.prems(1) this] show ?thesis .
  next
    case (Some r)
    from search_hf_hub_single [OF Some] obtain repo where "matches r = [repo]" ..
    with Cons.prems(1) have inv: "\<forall>name mr. (mrs(n \<mapsto> r)) name = Some mr \<longrightarrow> (\<exists>repo. matches mr = [repo])"
      by simp
    from Some Cons.prems(2) have "match_loop hub (Suc i) models (mrs(n \<mapsto> r)) name = Some mr"
      by (simp add: p)
    from Cons.IH [OF inv this] show ?thesis .
  qed
qed

subsection \<open>Parsing rows\<close>

text \<open>
  C1. The claim: a row of eight cells whose accuracy cell matches and whose rank cell is no
  integer is skipped, and the run continues. The code: \<open>int(rank_str)\<close> is evaluated
  outside the \<open>try\<close>, so its \<open>ValueError\<close> leaves \<open>fetch_leaderboard\<close> and \<open>main\<close>;
  nothing is written. Shown at the rank cell \<open>abc\<close>.
\<close>

theorem C1_rank_failure_raises:
  "parse_row (example_cells ''abc'' (acc_text ''75.1'' ''2.4'')) = Inl ValueError \<and>
   fetch_leaderboard (\<lambda>u. Response 200 (example_page (example_cells ''abc'' (acc_text ''75.1'' ''2.4''))))
     SOURCE_URL = Inl ValueError \<and>
   main (\<lambda>u. Response 200 (example_page (example_cells ''abc'' (acc_text ''75.1'' ''2.4''))))
     (\<lambda>i search limit sort. Stop) Map.empty = (Inl ValueError, Map.empty)"
proof -
  have 1: "parse_row (example_cells ''abc'' (acc_text ''75.1'' ''2.4'')) = Inl ValueError"
    by code_simp
  have 2: "fetch_leaderboard
      (\<lambda>u. Response 200 (example_page (example_cells ''abc'' (acc_text ''75.1'' ''2.4''))))
      SOURCE_URL = Inl ValueError"
    by code_simp
  show ?thesis unfolding main_def 2 using 1 by simp
qed

text \<open>
  C2, as stated, fails: \<open>re.match\<close> anchors the pattern at the start of the cell only, so a
  cell with text after the margin yields an entry although the whole cell does not match.
\<close>

theorem C2_whole_cell_counterexample:
  "parse_row (example_cells ''7'' (acc_text ''75.1'' ''2.4 (est.)'')) =
     Inr (Some \<lparr>rank = 7, agent = ''Terminus 2'', model = ''Kimi K2'', date = ''2025-11-01'',
       agent_org = ''Terminal Bench'', model_org = ''Kimi'', accuracy = 751 / 10,
       error_margin = Some (12 / 5)\<rparr>) \<and>
   \<not> spec_accuracy_cell (example_cells ''7'' (acc_text ''75.1'' ''2.4 (est.)'') ! 7)"
  by code_simp

text \<open>
  C2, amended. For every row of eight cells: when no prefix of the accuracy cell matches
  the pattern the row is skipped; and the row yields the entry \<open>e\<close> exactly when a prefix
  of the accuracy cell matches, both number tokens are float literals, the rank cell is
  an integer literal, and \<open>e\<close> holds the rank, the five text cells, the value of the
  percentage as accuracy and, as error margin, the value of the margin, or nothing when
  the margin token is \<open>N/A\<close>.
\<close>

theorem C2_parse_row_accuracy:
  assumes "length cells = 8"
  shows "(acc_match (cells ! 7) = None \<longrightarrow> parse_row cells = Inr None) \<and>
         (parse_row cells = Inr (Some e) \<longleftrightarrow>
            (\<exists>g1 g2 a r m. acc_match (cells ! 7) = Some (g1, g2) \<and> py_float g1 = Inr a \<and>
               py_int (cells ! 1) = Inr r \<and>
               (if g2 = ''N/A'' then m = None else (\<exists>v. py_float g2 = Inr v \<and> m = Some v)) \<and>
               e = \<lparr>rank = r, agent = cells ! 2, model = cells ! 3, date = cells ! 4,
                    agent_org = cells ! 5, model_org = cells ! 6, accuracy = a,
                    error_margin = m\<rparr>))"
proof -
  from assms obtain c0 c1 c2 c3 c4 c5 c6 c7 where
    cells: "cells = [c0, c1, c2, c3, c4, c5, c6, c7]"
    using length_eight by blast
  show ?thesis
  proof (cases "c1 = ''Rank''")
    case True
    then show ?thesis
      unfolding cells parse_row_eight using py_int_Rank by simp
  next
    case False
    then show ?thesis
      unfolding cells parse_row_eight
      by (auto split: option.splits sum.splits simp: map_sum_def)
  qed
qed

theorem C2_parse_row_accuracy_witness:
  "length (example_cells ''7'' (acc_text ''60'' ''N/A'')) = 8 \<and>
   parse_row (example_cells ''7'' (acc_text ''60'' ''N/A'')) =
     Inr (Some \<lparr>rank = 7, agent = ''Terminus 2'', model = ''Kimi K2'', date = ''2025-11-01'',
       agent_org = ''Terminal Bench'', model_org = ''Kimi'', accuracy = 60,
       error_margin = None\<rparr>) \<and>
   parse_row (example_cells ''7'' ''n/a'') = Inr None"
proof -
  have l: "length (example_cells ''7'' (acc_text ''60'' ''N/A'')) = 8"
    by (simp add: example_cells_def)
  have l': "length (example_cells ''7'' ''n/a'') = 8"
    by (simp add: example_cells_def)
  have a: "acc_match (example_cells ''7'' (acc_text ''60'' ''N/A'') ! 7) = Some (''60'', ''N/A'')"
    by code_simp
  have a': "acc_match (example_cells ''7'' ''n/a'' ! 7) = None"
    by code_simp
  have f: "py_float ''60'' = Inr (60)"
    by code_simp
  have i: "py_int (example_cells ''7'' (acc_text ''60'' ''N/A'') ! 1) = Inr 7"
    by code_simp
  have c: "example_cells ''7'' (acc_text ''60'' ''N/A'') ! 2 = ''Terminus 2''"
    "example_cells ''7'' (acc_text ''60'' ''N/A'') ! 3 = ''Kimi K2''"
    "example_cells ''7'' (acc_text ''60'' ''N/A'') ! 4 = ''2025-11-01''"
    "example_cells ''7'' (acc_text ''60'' ''N/A'') ! 5 = ''Terminal Bench''"
    "example_cells ''7'' (acc_text ''60'' ''N/A'') ! 6 = ''Kimi''"
    by (simp_all add: example_cells_def)
  from C2_parse_row_accuracy [OF l] a f i c
  have "parse_row (example_cells ''7'' (acc_text ''60'' ''N/A'')) =
     Inr (Some \<lparr>rank = 7, agent = ''Terminus 2'', model = ''Kimi K2'', date = ''2025-11-01'',
       agent_org = ''Terminal Bench'', model_org = ''Kimi'', accuracy = 60,
       error_margin = None\<rparr>)"
    by simp
  moreover from C2_parse_row_accuracy [OF l'] a'
  have "parse_row (example_cells ''7'' ''n/a'') = Inr None"
    by simp
  ultimately show ?thesis using l by simp
qed

text \<open>
  C3, as stated, fails: nothing checks the bounds of the data model. The rank cell \<open>0\<close>
  and the accuracy cell \<open>150%\<plusminus> 2.4\<close> yield an entry of rank 0 and accuracy 150.
\<close>

theorem C3_bounds_counterexample:
  "(case parse_row (example_cells ''0'' (acc_text ''150'' ''2.4'')) of
      Inr (Some e) \<Rightarrow> rank e < 1 \<and> 100 < accuracy e
    | _ \<Rightarrow> False)"
  by code_simp

text \<open>
  C3, amended. Every entry that \<open>parse_row\<close> yields has as rank the integer that \<open>int\<close>
  reads from the rank cell, whatever its sign, and an accuracy that is not negative.
\<close>

theorem C3_entry_fields:
  assumes "parse_row cells = Inr (Some e)"
  shows "py_int (cells ! 1) = Inr (rank e) \<and> 0 \<le> accuracy e"
proof -
  from parse_row_SomeD [OF assms] obtain g1 g2 where
    "acc_match (cells ! 7) = Some (g1, g2)" and
    f: "py_float g1 = Inr (accuracy e)" and i: "py_int (cells ! 1) = Inr (rank e)"
    by blast
  from py_float_nonneg [OF f] i show ?thesis by simp
qed

theorem C3_entry_fields_witness:
  "parse_row (example_cells ''-3'' (acc_text ''150'' ''2.4'')) =
     Inr (Some \<lparr>rank = - 3, agent = ''Terminus 2'', model = ''Kimi K2'', date = ''2025-11-01'',
       agent_org = ''Terminal Bench'', model_org = ''Kimi'', accuracy = 150,
       error_margin = Some (12 / 5)\<rparr>) \<and>
   py_int (example_cells ''-3'' (acc_text ''150'' ''2.4'') ! 1) = Inr (- 3) \<and> (0::rat) \<le> 150"
proof -
  have p: "parse_row (example_cells ''-3'' (acc_text ''150'' ''2.4'')) =
     Inr (Some \<lparr>rank = - 3, agent = ''Terminus 2'', model = ''Kimi K2'', date = ''2025-11-01'',
       agent_org = ''Terminal Bench'', model_org = ''Kimi'', accuracy = 150,
       error_margin = Some (12 / 5)\<rparr>)"
    by code_simp
  from C3_entry_fields [OF p] p show ?thesis by simp
qed

subsection \<open>Filtering\<close>

text \<open>
  C5. \<open>filter_entries\<close> keeps an entry exactly when its agent is the target agent, its
  \<open>model_org\<close> is not among the excluded organisations and its \<open>model_org\<close> has an entry
  in the alias table: this is what decides membership in the result, what happens to a
  list of one entry, and the list is filtered entry by entry, in order.
\<close>

theorem C5_filter_entries_iff:
  "(e \<in> set (filter_entries agent_name closed_orgs org_lookup results) \<longleftrightarrow>
      e \<in> set results \<and> agent e = agent_name \<and> model_org e \<notin> closed_orgs \<and>
      (\<exists>owner. org_lookup (model_org e) = Some owner)) \<and>
   filter_entries agent_name closed_orgs org_lookup [e] =
     (if agent e = agent_name \<and> model_org e \<notin> closed_orgs \<and>
         (\<exists>owner. org_lookup (model_org e) = Some owner)
      then [e] else []) \<and>
   filter_entries agent_name closed_orgs org_lookup (xs @ ys) =
     filter_entries agent_name closed_orgs org_lookup xs @
     filter_entries agent_name closed_orgs org_lookup ys"
  by (auto simp: filter_entries_def domIff)

theorem C5_filter_entries_iff_witness:
  "filter_entries ''A'' {''X'', ''Y''} (Map.empty(''X'' \<mapsto> ''x'', ''Z'' \<mapsto> ''z''))
     [synthetic_entry ''A'' ''X'', synthetic_entry ''A'' ''Y'', synthetic_entry ''A'' ''Z'',
      synthetic_entry ''A'' ''W'', synthetic_entry ''B'' ''X'', synthetic_entry ''B'' ''Y'',
      synthetic_entry ''B'' ''Z'', synthetic_entry ''B'' ''W'']
   = [synthetic_entry ''A'' ''Z''] \<and>
   filter_entries AGENT_NAME CLOSED_MODEL_ORGS MODEL_ORG_LOOKUP
     [kimi_entry, kimi_entry\<lparr>model_org := ''OpenAI''\<rparr>, kimi_entry\<lparr>model_org := ''DeepSeek''\<rparr>,
      kimi_entry\<lparr>agent := ''Codex''\<rparr>]
   = [kimi_entry]"
proof -
  note one = C5_filter_entries_iff [THEN conjunct2, THEN conjunct1]
  note app = C5_filter_entries_iff [THEN conjunct2, THEN conjunct2]
  have 1: "filter_entries ''A'' {''X'', ''Y''} (Map.empty(''X'' \<mapsto> ''x'', ''Z'' \<mapsto> ''z''))
     ([synthetic_entry ''A'' ''X''] @ [synthetic_entry ''A'' ''Y''] @ [synthetic_entry ''A'' ''Z''] @
      [synthetic_entry ''A'' ''W''] @ [synthetic_entry ''B'' ''X''] @ [synthetic_entry ''B'' ''Y''] @
      [synthetic_entry ''B'' ''Z''] @ [synthetic_entry ''B'' ''W''])
   = [synthetic_entry ''A'' ''Z'']"
    unfolding app one by (simp add: synthetic_entry_def kimi_entry_def)
  have 2: "filter_entries AGENT_NAME CLOSED_MODEL_ORGS MODEL_ORG_LOOKUP
     ([kimi_entry] @ [kimi_entry\<lparr>model_org := ''OpenAI''\<rparr>] @
      [kimi_entry\<lparr>model_org := ''DeepSeek''\<rparr>] @ [kimi_entry\<lparr>agent := ''Codex''\<rparr>])
   = [kimi_entry]"
    unfolding app one
    by (simp add: kimi_entry_def AGENT_NAME_def CLOSED_MODEL_ORGS_def MODEL_ORG_LOOKUP_def)
  from 1 2 show ?thesis by simp
qed

subsection \<open>Distinct models\<close>

text \<open>
  C7. \<open>unique_models\<close> returns the pairs \<open>(model, model_org)\<close> of the entries at the
  positions where a pair occurs for the first time, in the order of these positions; so
  every pair of the entries is in the result exactly once, however often it occurs.
\<close>

theorem C7_unique_models_first_seen:
  "unique_models es =
     map ((!) (map (\<lambda>e. (model e, model_org e)) es))
       [j \<leftarrow> [0..<length es].
          map (\<lambda>e. (model e, model_org e)) es ! j
            \<notin> set (take j (map (\<lambda>e. (model e, model_org e)) es))] \<and>
   count_list (unique_models es) p =
     (if p \<in> set (map (\<lambda>e. (model e, model_org e)) es) then 1 else 0)"
proof -
  have d: "distinct (unique_models es)"
    unfolding unique_models_def by (rule unique_models_loop_distinct) simp_all
  have s: "set (unique_models es) = set (map (\<lambda>e. (model e, model_org e)) es)"
    unfolding unique_models_def unique_models_loop_set by simp
  have i: "unique_models es =
     map ((!) (map (\<lambda>e. (model e, model_org e)) es))
       [j \<leftarrow> [0..<length es].
          map (\<lambda>e. (model e, model_org e)) es ! j
            \<notin> set (take j (map (\<lambda>e. (model e, model_org e)) es))]"
    unfolding unique_models_def unique_models_loop_indices by simp
  from distinct_count_list [OF d, of p] s i show ?thesis by simp
qed

theorem C7_unique_models_first_seen_witness:
  "unique_models [kimi_entry, kimi_entry\<lparr>model := ''N''\<rparr>, kimi_entry,
      kimi_entry\<lparr>model_org := ''Alibaba''\<rparr>, kimi_entry\<lparr>model := ''N''\<rparr>, kimi_entry]
   = [(''M'', ''Kimi''), (''N'', ''Kimi''), (''M'', ''Alibaba'')] \<and>
   count_list (unique_models [kimi_entry, kimi_entry\<lparr>model := ''N''\<rparr>, kimi_entry,
      kimi_entry\<lparr>model_org := ''Alibaba''\<rparr>, kimi_entry\<lparr>model := ''N''\<rparr>, kimi_entry])
     (''M'', ''Kimi'') = 1"
proof -
  have u: "unique_models [kimi_entry, kimi_entry\<lparr>model := ''N''\<rparr>, kimi_entry,
      kimi_entry\<lparr>model_org := ''Alibaba''\<rparr>, kimi_entry\<lparr>model := ''N''\<rparr>, kimi_entry]
   = [(''M'', ''Kimi''), (''N'', ''Kimi''), (''M'', ''Alibaba'')]"
    by (simp add: unique_models_def kimi_entry_def)
  from C7_unique_models_first_seen [of "[kimi_entry, kimi_entry\<lparr>model := ''N''\<rparr>, kimi_entry,
      kimi_entry\<lparr>model_org := ''Alibaba''\<rparr>, kimi_entry\<lparr>model := ''N''\<rparr>, kimi_entry]"
      "(''M'', ''Kimi'')"]
  have "count_list (unique_models [kimi_entry, kimi_entry\<lparr>model := ''N''\<rparr>, kimi_entry,
      kimi_entry\<lparr>model_org := ''Alibaba''\<rparr>, kimi_entry\<lparr>model := ''N''\<rparr>, kimi_entry])
     (''M'', ''Kimi'') = 1"
    by (simp add: kimi_entry_def)
  with u show ?thesis by simp
qed

subsection \<open>Searching the hub\<close>

text \<open>
  C6. Let the alias table give the owner \<open>hf_org\<close> for the organisation, and let the search
  yield the candidates \<open>cands\<close> and then go on as \<open>g\<close>. If some candidate has the owner
  \<open>hf_org\<close>, compared in lower case, the result holds exactly one match, the first such
  candidate, whatever \<open>g\<close> is: nothing after the hit is read. If none has, the result is
  that of the search going on as \<open>g\<close>.
\<close>

theorem C6_first_owner_match:
  assumes "org_lookup org = Some hf_org" and "api name limit ''likes'' = yield_all cands g"
  shows "(case find (\<lambda>m. lower (takeWhile (\<lambda>c. c \<noteq> CHR ''/'') m) = lower hf_org) cands of
            Some m \<Rightarrow>
              search_hf_hub org_lookup api name org limit =
                Some \<lparr>model_name = name, MatchResult.model_org = org,
                      matches = [\<lparr>repo_id = m, repo_type = ''model'',
                                  url = ''https://huggingface.co/'' @ m\<rparr>]\<rparr> \<and>
              (\<exists>i < length cands. cands ! i = m \<and>
                 (\<forall>j < i. lower (takeWhile (\<lambda>c. c \<noteq> CHR ''/'') (cands ! j)) \<noteq> lower hf_org))
          | None \<Rightarrow>
              search_hf_hub org_lookup api name org limit =
                search_hf_hub org_lookup (\<lambda>search limit sort. g) name org limit)"
proof (cases "find (\<lambda>m. lower (takeWhile (\<lambda>c. c \<noteq> CHR ''/'') m) = lower hf_org) cands")
  case None
  then show ?thesis
    by (simp add: search_hf_hub_Some [of org_lookup org hf_org, OF assms(1)] assms(2) scan_models_yield_all)
next
  case (Some m)
  then have "\<exists>i < length cands. cands ! i = m \<and>
      (\<forall>j < i. lower (takeWhile (\<lambda>c. c \<noteq> CHR ''/'') (cands ! j)) \<noteq> lower hf_org)"
    unfolding find_Some_iff by blast
  with Some show ?thesis
    by (simp add: search_hf_hub_Some [of org_lookup org hf_org, OF assms(1)] assms(2) scan_models_yield_all)
qed

theorem C6_first_owner_match_witness:
  "search_hf_hub (Map.empty(''Good'' \<mapsto> ''goodorg''))
     (\<lambda>search limit sort. yield_all [''bad/org'', ''GoodOrg/m'', ''GoodOrg/m2''] Stop)
     ''m'' ''Good'' 5 =
   Some \<lparr>model_name = ''m'', MatchResult.model_org = ''Good'',
         matches = [\<lparr>repo_id = ''GoodOrg/m'', repo_type = ''model'',
                     url = ''https://huggingface.co/GoodOrg/m''\<rparr>]\<rparr>"
proof -
  have f: "find (\<lambda>m. lower (takeWhile (\<lambda>c. c \<noteq> CHR ''/'') m) = lower ''goodorg'')
      [''bad/org'', ''GoodOrg/m'', ''GoodOrg/m2''] = Some ''GoodOrg/m''"
    by code_simp
  from C6_first_owner_match [of "Map.empty(''Good'' \<mapsto> ''goodorg'')" "''Good''" "''goodorg''"
      "\<lambda>search limit sort. yield_all [''bad/org'', ''GoodOrg/m'', ''GoodOrg/m2''] Stop"
      "''m''" 5 "[''bad/org'', ''GoodOrg/m'', ''GoodOrg/m2'']" Stop]
  show ?thesis unfolding f by simp
qed

text \<open>
  C8. \<open>search_hf_hub\<close> returns a value on every input: no exception leaves it. Without an
  entry in the alias table the result is \<open>None\<close>. When the iteration over the search
  results raises, the result is \<open>None\<close>, as for a search that returns no candidate; and
  a search that raises after yielding some candidates gives the same result as the search
  that ends after yielding them.
\<close>

theorem C8_search_failure_is_no_match:
  "(org_lookup org = None \<longrightarrow> search_hf_hub org_lookup api name org limit = None) \<and>
   (fst (scan_models (lower hf_org) (api name limit ''likes'') []) \<and>
      org_lookup org = Some hf_org \<longrightarrow>
      search_hf_hub org_lookup api name org limit = None \<and>
      search_hf_hub org_lookup (\<lambda>search limit sort. Stop) name org limit = None) \<and>
   search_hf_hub org_lookup (\<lambda>search limit sort. yield_all cands Raises) name org limit =
     search_hf_hub org_lookup (\<lambda>search limit sort. yield_all cands Stop) name org limit"
proof (intro conjI impI)
  assume "org_lookup org = None"
  then show "search_hf_hub org_lookup api name org limit = None"
    by (simp add: search_hf_hub_def)
next
  assume a: "fst (scan_models (lower hf_org) (api name limit ''likes'') []) \<and>
      org_lookup org = Some hf_org"
  then have l: "org_lookup org = Some hf_org" by simp
  from a scan_models_raised show "search_hf_hub org_lookup api name org limit = None"
    by (simp add: search_hf_hub_Some [of org_lookup org hf_org, OF l])
  show "search_hf_hub org_lookup (\<lambda>search limit sort. Stop) name org limit = None"
    by (simp add: search_hf_hub_Some [of org_lookup org hf_org, OF l])
next
  show "search_hf_hub org_lookup (\<lambda>search limit sort. yield_all cands Raises) name org limit =
     search_hf_hub org_lookup (\<lambda>search limit sort. yield_all cands Stop) name org limit"
  proof (cases "org_lookup org")
    case None
    then show ?thesis by (simp add: search_hf_hub_def)
  next
    case (Some hf_org)
    show ?thesis
      by (simp add: search_hf_hub_Some [of org_lookup org hf_org, OF Some] scan_models_yield_all split: option.splits)
  qed
qed

theorem C8_search_failure_is_no_match_witness:
  "search_hf_hub MODEL_ORG_LOOKUP (\<lambda>search limit sort. Raises) ''Kimi K2'' ''Unknown'' 5 = None \<and>
   search_hf_hub MODEL_ORG_LOOKUP (\<lambda>search limit sort. Yield ''bad/org'' Raises) ''Kimi K2'' ''Kimi'' 5 = None \<and>
   search_hf_hub MODEL_ORG_LOOKUP (\<lambda>search limit sort. Stop) ''Kimi K2'' ''Kimi'' 5 = None"
proof -
  have 1: "MODEL_ORG_LOOKUP ''Unknown'' = None" by (simp add: MODEL_ORG_LOOKUP_def)
  have 2: "MODEL_ORG_LOOKUP ''Kimi'' = Some ''moonshotai''" by (simp add: MODEL_ORG_LOOKUP_def)
  have 3: "fst (scan_models (lower ''moonshotai'') (Yield ''bad/org'' Raises) [])"
    by code_simp
  from C8_search_failure_is_no_match [of MODEL_ORG_LOOKUP "''Unknown''" "\<lambda>search limit sort. Raises"
      "''Kimi K2''" 5] 1
  have a: "search_hf_hub MODEL_ORG_LOOKUP (\<lambda>search limit sort. Raises) ''Kimi K2'' ''Unknown'' 5 = None"
    by simp
  from C8_search_failure_is_no_match [of MODEL_ORG_LOOKUP "''Kimi''"
      "\<lambda>search limit sort. Yield ''bad/org'' Raises" "''Kimi K2''" 5 "''moonshotai''"] 2 3
  have b: "search_hf_hub MODEL_ORG_LOOKUP (\<lambda>search limit sort. Yield ''bad/org'' Raises) ''Kimi K2'' ''Kimi'' 5 = None \<and>
   search_hf_hub MODEL_ORG_LOOKUP (\<lambda>search limit sort. Stop) ''Kimi K2'' ''Kimi'' 5 = None"
    by simp
  from a b show ?thesis by simp
qed

subsection \<open>Building the report\<close>

text \<open>
  C4. \<open>build_output\<close> looks the match of an entry up by the model name alone. The report
  holds the entries whose model name has a match result, in order, each with the
  \<open>repo_id\<close> and \<open>url\<close> of the first match stored under its model name; so two report
  entries of the same model name carry the same \<open>hf_repo_id\<close> and \<open>hf_url\<close>, whatever
  their \<open>model_org\<close>.
\<close>

theorem C4_match_by_model_name:
  assumes "build_output es mrs = Inr rep"
  shows "map entry.truncate (entries rep) = [e \<leftarrow> es. mrs (model e) \<noteq> None] \<and>
         (\<forall>r \<in> set (entries rep). \<exists>mr repo rest. mrs (model r) = Some mr \<and>
            matches mr = repo # rest \<and> hf_repo_id r = repo_id repo \<and> hf_url r = url repo) \<and>
         (\<forall>r1 \<in> set (entries rep). \<forall>r2 \<in> set (entries rep). model r1 = model r2 \<longrightarrow>
            hf_repo_id r1 = hf_repo_id r2 \<and> hf_url r1 = hf_url r2)"
proof -
  from assms obtain out where b: "build_entries es mrs [] = Inr out" and r: "entries rep = out"
    by (auto simp: build_output_def split: sum.splits)
  from build_entries_result [OF b] r have
    1: "map entry.truncate (entries rep) = [e \<leftarrow> es. mrs (model e) \<noteq> None]" and
    2: "\<forall>r \<in> set (entries rep). \<exists>mr repo rest. mrs (model r) = Some mr \<and>
            matches mr = repo # rest \<and> hf_repo_id r = repo_id repo \<and> hf_url r = url repo"
    by auto
  have 3: "\<forall>r1 \<in> set (entries rep). \<forall>r2 \<in> set (entries rep). model r1 = model r2 \<longrightarrow>
            hf_repo_id r1 = hf_repo_id r2 \<and> hf_url r1 = hf_url r2"
  proof (intro ballI impI)
    fix r1 r2
    assume a: "r1 \<in> set (entries rep)" "r2 \<in> set (entries rep)" "model r1 = model r2"
    from 2 a(1) obtain mr1 repo1 rest1 where
      r1: "mrs (model r1) = Some mr1" "matches mr1 = repo1 # rest1"
        "hf_repo_id r1 = repo_id repo1" "hf_url r1 = url repo1"
      by blast
    from 2 a(2) obtain mr2 repo2 rest2 where
      r2: "mrs (model r2) = Some mr2" "matches mr2 = repo2 # rest2"
        "hf_repo_id r2 = repo_id repo2" "hf_url r2 = url repo2"
      by blast
    from r1(1) r2(1) a(3) have "mr1 = mr2" by simp
    with r1 r2 show "hf_repo_id r1 = hf_repo_id r2 \<and> hf_url r1 = hf_url r2" by simp
  qed
  from 1 2 3 show ?thesis by blast
qed

theorem C4_match_by_model_name_witness:
  "build_output [kimi_entry, kimi_entry\<lparr>model_org := ''Alibaba''\<rparr>] qwen_results =
     Inr \<lparr>source = SOURCE_URL, entries = [qwen_entry ''Kimi'', qwen_entry ''Alibaba'']\<rparr> \<and>
   model_org (qwen_entry ''Kimi'') \<noteq> model_org (qwen_entry ''Alibaba'') \<and>
   hf_repo_id (qwen_entry ''Kimi'') = hf_repo_id (qwen_entry ''Alibaba'') \<and>
   hf_url (qwen_entry ''Kimi'') = hf_url (qwen_entry ''Alibaba'')"
proof -
  have b: "build_output [kimi_entry, kimi_entry\<lparr>model_org := ''Alibaba''\<rparr>] qwen_results =
     Inr \<lparr>source = SOURCE_URL, entries = [qwen_entry ''Kimi'', qwen_entry ''Alibaba'']\<rparr>"
    by code_simp
  have m: "model (qwen_entry ''Kimi'') = model (qwen_entry ''Alibaba'')"
    by (simp add: qwen_entry_def)
  have o: "model_org (qwen_entry ''Kimi'') \<noteq> model_org (qwen_entry ''Alibaba'')"
    by (simp add: qwen_entry_def)
  have 1: "qwen_entry ''Kimi'' \<in> set (entries
      \<lparr>source = SOURCE_URL, entries = [qwen_entry ''Kimi'', qwen_entry ''Alibaba'']\<rparr>)"
    by simp
  have 2: "qwen_entry ''Alibaba'' \<in> set (entries
      \<lparr>source = SOURCE_URL, entries = [qwen_entry ''Kimi'', qwen_entry ''Alibaba'']\<rparr>)"
    by simp
  note same = C4_match_by_model_name [OF b, THEN conjunct2, THEN conjunct2]
  from same [rule_format, OF 1 2 m]
  have "hf_repo_id (qwen_entry ''Kimi'') = hf_repo_id (qwen_entry ''Alibaba'') \<and>
    hf_url (qwen_entry ''Kimi'') = hf_url (qwen_entry ''Alibaba'')" .
  with b o show ?thesis by blast
qed

text \<open>
  C9, as stated, fails on an empty match result: \<open>mr.matches[0]\<close> raises \<open>IndexError\<close>, so
  \<open>build_output\<close> returns no report instead of dropping the entry.
\<close>

theorem C9_empty_match_counterexample:
  "build_output [kimi_entry]
     (Map.empty(''M'' \<mapsto> \<lparr>model_name = ''M'', MatchResult.model_org = ''Kimi'', matches = []\<rparr>))
   = Inl IndexError"
  by (simp add: build_output_def kimi_entry_def)

text \<open>
  C9, amended. When every match result given to \<open>build_output\<close> holds a match, there is
  a report; it holds the entries whose model name has a match result, in order, each with
  the \<open>repo_id\<close> and \<open>url\<close> of the first match stored under its model name, and the
  other entries are dropped. The match results that \<open>main\<close> collects hold exactly one
  match each, so \<open>main\<close> never ends with an \<open>IndexError\<close>.
\<close>

theorem C9_report_entries_matched:
  "((\<forall>name mr. mrs name = Some mr \<longrightarrow> matches mr \<noteq> []) \<longrightarrow>
      (\<exists>rep. build_output es mrs = Inr rep \<and> source rep = SOURCE_URL \<and>
         map entry.truncate (entries rep) = [e \<leftarrow> es. mrs (model e) \<noteq> None] \<and>
         (\<forall>r \<in> set (entries rep). \<exists>mr repo rest. mrs (model r) = Some mr \<and>
            matches mr = repo # rest \<and> hf_repo_id r = repo_id repo \<and> hf_url r = url repo))) \<and>
   (\<forall>name mr. match_loop hub 0 models Map.empty name = Some mr \<longrightarrow> (\<exists>repo. matches mr = [repo])) \<and>
   fst (main get hub fs) \<noteq> Inl IndexError"
proof (intro conjI impI allI)
  assume ne: "\<forall>name mr. mrs name = Some mr \<longrightarrow> matches mr \<noteq> []"
  then have "\<forall>e \<in> set es. \<forall>mr. mrs (model e) = Some mr \<longrightarrow> matches mr \<noteq> []" by blast
  from build_entries_total [OF this] obtain out where b: "build_entries es mrs [] = Inr out"
    by blast
  from build_entries_result [OF b] b
  show "\<exists>rep. build_output es mrs = Inr rep \<and> source rep = SOURCE_URL \<and>
         map entry.truncate (entries rep) = [e \<leftarrow> es. mrs (model e) \<noteq> None] \<and>
         (\<forall>r \<in> set (entries rep). \<exists>mr repo rest. mrs (model r) = Some mr \<and>
            matches mr = repo # rest \<and> hf_repo_id r = repo_id repo \<and> hf_url r = url repo)"
    by (auto simp: build_output_def)
next
  fix name mr
  assume "match_loop hub 0 models Map.empty name = Some mr"
  from match_loop_single [OF _ this] show "\<exists>repo. matches mr = [repo]" by simp
next
  show "fst (main get hub fs) \<noteq> Inl IndexError"
  proof (cases "fetch_leaderboard get SOURCE_URL")
    case (Inl e)
    then have "e \<noteq> IndexError"
      by (auto dest: fetch_leaderboard_error)
    with Inl show ?thesis by (simp add: main_def)
  next
    case (Inr all_results)
    let ?es = "filter_entries AGENT_NAME CLOSED_MODEL_ORGS MODEL_ORG_LOOKUP all_results"
    let ?mrs = "match_loop hub 0 (unique_models ?es) Map.empty"
    have "\<forall>e \<in> set ?es. \<forall>mr. ?mrs (model e) = Some mr \<longrightarrow> matches mr \<noteq> []"
    proof (intro ballI allI impI)
      fix e mr assume "?mrs (model e) = Some mr"
      from match_loop_single [OF _ this] show "matches mr \<noteq> []" by auto
    qed
    from build_entries_total [OF this] obtain out where "build_entries ?es ?mrs [] = Inr out"
      by blast
    with Inr show ?thesis by (simp add: main_def build_output_def Let_def)
  qed
qed

theorem C9_report_entries_matched_witness:
  "\<exists>rep. build_output [kimi_entry, kimi_entry\<lparr>model := ''N''\<rparr>] qwen_results = Inr rep \<and>
     source rep = SOURCE_URL \<and> map entry.truncate (entries rep) = [kimi_entry]"
proof -
  have h: "\<forall>name mr. qwen_results name = Some mr \<longrightarrow> matches mr \<noteq> []"
    by (simp add: qwen_results_def)
  have f: "[e \<leftarrow> [kimi_entry, kimi_entry\<lparr>model := ''N''\<rparr>]. qwen_results (model e) \<noteq> None] =
      [kimi_entry]"
    by (simp add: qwen_results_def kimi_entry_def)
  from C9_report_entries_matched [of qwen_results "[kimi_entry, kimi_entry\<lparr>model := ''N''\<rparr>]"] h
  have "\<exists>rep. build_output [kimi_entry, kimi_entry\<lparr>model := ''N''\<rparr>] qwen_results = Inr rep \<and>
      source rep = SOURCE_URL \<and>
      map entry.truncate (entries rep) =
        [e \<leftarrow> [kimi_entry, kimi_entry\<lparr>model := ''N''\<rparr>]. qwen_results (model e) \<noteq> None]"
    by blast
  then show ?thesis unfolding f .
qed

subsection \<open>The main program\<close>

text \<open>
  C10. When \<open>fetch_leaderboard\<close> raises, \<open>main\<close> ends with that exception and the files
  are as they were; this is so when the request fails, when the status is no 2xx, and
  when the page holds no table.
\<close>

theorem C10_no_write_on_fetch_failure:
  "(\<forall>e. fetch_leaderboard get SOURCE_URL = Inl e \<longrightarrow> main get hub fs = (Inl e, fs)) \<and>
   (get SOURCE_URL = TransportFailure \<longrightarrow> main get hub fs = (Inl HTTPError, fs)) \<and>
   (\<forall>status text. get SOURCE_URL = Response status text \<and> \<not> is_success status \<longrightarrow>
      main get hub fs = (Inl HTTPError, fs)) \<and>
   (\<forall>status text. get SOURCE_URL = Response status text \<and> is_success status \<and>
      table_search text = None \<longrightarrow> main get hub fs = (Inl RuntimeError, fs))"
  by (simp add: main_def fetch_leaderboard_def)

theorem C10_no_write_on_fetch_failure_witness:
  "main (\<lambda>u. Response 404 ''Not Found'') (\<lambda>i search limit sort. Stop) Map.empty
     = (Inl HTTPError, Map.empty) \<and>
   main (\<lambda>u. Response 200 ''<html><p>no results</p></html>'') (\<lambda>i search limit sort. Stop) Map.empty
     = (Inl RuntimeError, Map.empty)"
proof -
  have 1: "\<not> is_success 404" by (simp add: is_success_def)
  have 2: "is_success 200" by (simp add: is_success_def)
  have 3: "table_search ''<html><p>no results</p></html>'' = None" by code_simp
  from C10_no_write_on_fetch_failure [of "\<lambda>u. Response 404 ''Not Found''" "\<lambda>i search limit sort. Stop" Map.empty] 1
  have "main (\<lambda>u. Response 404 ''Not Found'') (\<lambda>i search limit sort. Stop) Map.empty
     = (Inl HTTPError, Map.empty)"
    by simp
  moreover
  from C10_no_write_on_fetch_failure [of "\<lambda>u. Response 200 ''<html><p>no results</p></html>''" "\<lambda>i search limit sort. Stop" Map.empty] 2 3
  have "main (\<lambda>u. Response 200 ''<html><p>no results</p></html>'') (\<lambda>i search limit sort. Stop) Map.empty
     = (Inl RuntimeError, Map.empty)"
    by simp
  ultimately show ?thesis by simp
qed

text \<open>
  When nothing fails \<open>main\<close> writes the report: a page with a header row and one data row,
  and a hub that yields two models and then fails. The second model is owned by the
  organisation the alias table gives for \<open>Kimi\<close>, so the failure is never reached.
\<close>

lemma main_writes_report:
  "main (\<lambda>u. Response 200 (example_page (example_cells ''7'' (acc_text ''75.1'' ''2.4''))))
     (\<lambda>i search limit sort. yield_all [''unsloth/Kimi-K2'', ''MoonshotAI/Kimi-K2''] Raises)
     Map.empty
   = (Inr (), Map.empty(OUTPUT_PATH \<mapsto> \<lparr>source = SOURCE_URL, entries =
       [\<lparr>rank = 7, agent = ''Terminus 2'', model = ''Kimi K2'', date = ''2025-11-01'',
         agent_org = ''Terminal Bench'', model_org = ''Kimi'', accuracy = 751 / 10,
         error_margin = Some (12 / 5), hf_repo_id = ''MoonshotAI/Kimi-K2'',
         hf_url = ''https://huggingface.co/MoonshotAI/Kimi-K2''\<rparr>]\<rparr>))"
proof -
  have f: "fetch_leaderboard
      (\<lambda>u. Response 200 (example_page (example_cells ''7'' (acc_text ''75.1'' ''2.4''))))
      SOURCE_URL =
    Inr [\<lparr>rank = 7, agent = ''Terminus 2'', model = ''Kimi K2'', date = ''2025-11-01'',
         agent_org = ''Terminal Bench'', model_org = ''Kimi'', accuracy = 751 / 10,
         error_margin = Some (12 / 5)\<rparr>]"
    by code_simp
  have s: "search_hf_hub MODEL_ORG_LOOKUP
      (\<lambda>search limit sort. yield_all [''unsloth/Kimi-K2'', ''MoonshotAI/Kimi-K2''] Raises)
      ''Kimi K2'' ''Kimi'' 5 =
    Some \<lparr>model_name = ''Kimi K2'', MatchResult.model_org = ''Kimi'',
      matches = [\<lparr>repo_id = ''MoonshotAI/Kimi-K2'', repo_type = ''model'',
        url = ''https://huggingface.co/MoonshotAI/Kimi-K2''\<rparr>]\<rparr>"
    by code_simp
  let ?e = "\<lparr>rank = 7, agent = ''Terminus 2'', model = ''Kimi K2'', date = ''2025-11-01'',
         agent_org = ''Terminal Bench'', model_org = ''Kimi'', accuracy = 751 / 10,
         error_margin = Some (12 / 5)\<rparr>"
  let ?r = "\<lparr>model_name = ''Kimi K2'', MatchResult.model_org = ''Kimi'',
      matches = [\<lparr>repo_id = ''MoonshotAI/Kimi-K2'', repo_type = ''model'',
        url = ''https://huggingface.co/MoonshotAI/Kimi-K2''\<rparr>]\<rparr>"
  have fe: "filter_entries AGENT_NAME CLOSED_MODEL_ORGS MODEL_ORG_LOOKUP [?e] = [?e]"
    by (simp add: filter_entries_def AGENT_NAME_def CLOSED_MODEL_ORGS_def MODEL_ORG_LOOKUP_def)
  have um: "unique_models [?e] = [(''Kimi K2'', ''Kimi'')]"
    by (simp add: unique_models_def)
  have ml: "match_loop
      (\<lambda>i search limit sort. yield_all [''unsloth/Kimi-K2'', ''MoonshotAI/Kimi-K2''] Raises)
      0 [(''Kimi K2'', ''Kimi'')] Map.empty = Map.empty(''Kimi K2'' \<mapsto> ?r)"
    unfolding match_loop.simps s by simp
  have bo: "build_output [?e] (Map.empty(''Kimi K2'' \<mapsto> ?r)) =
      Inr \<lparr>source = SOURCE_URL, entries =
       [\<lparr>rank = 7, agent = ''Terminus 2'', model = ''Kimi K2'', date = ''2025-11-01'',
         agent_org = ''Terminal Bench'', model_org = ''Kimi'', accuracy = 751 / 10,
         error_margin = Some (12 / 5), hf_repo_id = ''MoonshotAI/Kimi-K2'',
         hf_url = ''https://huggingface.co/MoonshotAI/Kimi-K2''\<rparr>]\<rparr>"
    by (simp add: build_output_def)
  show ?thesis
    unfolding main_def f Let_def sum.case fe um ml bo by simp
qed

end
